theory Spec2Isabelle
  imports Complex_Main "HOL-Library.Word"
begin

section \<open>Errors of the JavaScript platform\<close>

text \<open>
  Every exception the modelled code can meet is a value. A function that may throw
  returns \<open>js_error + 'a\<close>, with \<open>Inl\<close> for the exception.
\<close>

datatype js_error =
    RangeError
  | NotSupportedError
  | InvalidCharacterError
  | InvalidStateError
  | SyntaxError
  | TypeError
  | NetworkError

section \<open>Audio helpers (index.tsx)\<close>

type_synonym byte = "8 word"

subsection \<open>base64ToUint8Array\<close>

text \<open>
  A Uint8Array is a view of an ArrayBuffer: the bytes of the whole buffer (\<open>.buffer\<close>),
  where the view starts in it, and how many elements the view has.
\<close>

record Uint8Array =
  buffer :: "byte list"
  byteOffset :: nat
  byteLength :: nat

text \<open>\<open>new Uint8Array(len)\<close> allocates its own buffer of \<open>len\<close> zero bytes.\<close>

definition new_Uint8Array :: "nat \<Rightarrow> Uint8Array" where
  "new_Uint8Array len = \<lparr> buffer = replicate len 0, byteOffset = 0, byteLength = len \<rparr>"

text \<open>\<open>bytes[i] = v\<close>: a write outside the view does nothing.\<close>

definition set_element :: "Uint8Array \<Rightarrow> nat \<Rightarrow> byte \<Rightarrow> Uint8Array" where
  "set_element bytes i v =
     (if i < byteLength bytes
      then bytes\<lparr> buffer := (buffer bytes)[byteOffset bytes + i := v] \<rparr>
      else bytes)"

text \<open>
  \<open>atob\<close> is the browser's decoder and is a parameter: it either throws or returns
  the binary string, whose characters are the bytes. The loop writes
  \<open>bytes[i] = binaryString.charCodeAt(i)\<close> for \<open>i\<close> from 0 up to \<open>len\<close>.
\<close>

function bytes_loop :: "string \<Rightarrow> nat \<Rightarrow> nat \<Rightarrow> Uint8Array \<Rightarrow> Uint8Array" where
  "bytes_loop binaryString len i bytes =
     (if i < len
      then bytes_loop binaryString len (i + 1)
             (set_element bytes i (of_char (binaryString ! i)))
      else bytes)"
  by pat_completeness auto
termination
  by (relation "measure (\<lambda>(b, len, i, bytes). len - i)") auto

declare bytes_loop.simps [simp del]

definition base64ToUint8Array :: "(string \<Rightarrow> js_error + string) \<Rightarrow> string \<Rightarrow> js_error + Uint8Array" where
  "base64ToUint8Array atob base64 =
     (case atob base64 of
        Inl e \<Rightarrow> Inl e
      | Inr binaryString \<Rightarrow>
          (let len = length binaryString;
               bytes = new_Uint8Array len
           in Inr (bytes_loop binaryString len 0 bytes)))"

subsection \<open>decodeAudioData\<close>

text \<open>
  A Float32Array element: a number or NaN. Every number stored here is a 16-bit
  integer divided by \<open>2 ^ 15\<close>, which single precision represents exactly, so the
  numbers are modelled as reals.
\<close>

datatype f32 = Num real | NaN

record AudioBuffer =
  numberOfChannels :: nat
  frames :: nat
  bufferRate :: nat
  channels :: "f32 list list"

text \<open>
  The part of an AudioContext that \<open>createBuffer\<close> consults: the nominal ranges of
  the channel count and of the sample rate that the implementation supports.
\<close>

record AudioContext =
  maxChannels :: nat
  minRate :: nat
  maxRate :: nat

text \<open>
  \<open>new Int16Array(arrayBuffer)\<close>: a view of all the bytes of an ArrayBuffer as 16-bit
  signed integers, low byte first. The constructor throws RangeError when the byte
  length of the buffer is odd.
\<close>

fun int16_view :: "byte list \<Rightarrow> 16 word list" where
  "int16_view (lo # hi # rest) = word_cat hi lo # int16_view rest"
| "int16_view _ = []"

definition new_Int16Array :: "byte list \<Rightarrow> js_error + 16 word list" where
  "new_Int16Array arrayBuffer =
     (if length arrayBuffer mod 2 = 0 then Inr (int16_view arrayBuffer) else Inl RangeError)"

text \<open>
  \<open>ctx.createBuffer(numChannels, frameCount, sampleRate)\<close>: the length is converted to
  an unsigned integer by truncation; NotSupportedError when a value is zero or outside
  its nominal range. The new buffer is silent.
\<close>

definition createBuffer :: "AudioContext \<Rightarrow> nat \<Rightarrow> real \<Rightarrow> nat \<Rightarrow> js_error + AudioBuffer" where
  "createBuffer ctx numChannels frameCount sampleRate =
     (let n = nat \<lfloor>frameCount\<rfloor>
      in if numChannels = 0 \<or> maxChannels ctx < numChannels \<or> n = 0
            \<or> sampleRate < minRate ctx \<or> maxRate ctx < sampleRate
         then Inl NotSupportedError
         else Inr \<lparr> numberOfChannels = numChannels, frames = n, bufferRate = sampleRate,
                    channels = replicate numChannels (replicate n (Num 0)) \<rparr>)"

text \<open>
  Reading a typed array out of range gives \<open>undefined\<close>, and \<open>undefined / 32768.0\<close>
  is NaN; writing a typed array out of range does nothing, which is what list update does.
\<close>

definition sample_at :: "16 word list \<Rightarrow> nat \<Rightarrow> f32" where
  "sample_at dataInt16 k =
     (if k < length dataInt16 then Num (real_of_int (sint (dataInt16 ! k)) / 32768) else NaN)"

function channel_loop :: "16 word list \<Rightarrow> nat \<Rightarrow> nat \<Rightarrow> real \<Rightarrow> nat \<Rightarrow> f32 list \<Rightarrow> f32 list" where
  "channel_loop dataInt16 numChannels channel frameCount i channelData =
     (if real i < frameCount
      then channel_loop dataInt16 numChannels channel frameCount (i + 1)
             (channelData[i := sample_at dataInt16 (i * numChannels + channel)])
      else channelData)"
  by pat_completeness auto
termination
proof (relation "measure (\<lambda>(d, nc, c, fc, i, cd). nat \<lceil>fc\<rceil> - i)")
  show "wf (measure (\<lambda>(d, nc, c, fc, i, cd). nat \<lceil>fc :: real\<rceil> - i))"
    by simp
next
  fix dataInt16 :: "16 word list" and numChannels channel i :: nat
    and frameCount :: real and channelData :: "f32 list"
  assume "real i < frameCount"
  then have "int i < \<lceil>frameCount\<rceil>"
    by linarith
  then show "((dataInt16, numChannels, channel, frameCount, i + 1,
               channelData[i := sample_at dataInt16 (i * numChannels + channel)]),
              (dataInt16, numChannels, channel, frameCount, i, channelData))
             \<in> measure (\<lambda>(d, nc, c, fc, i, cd). nat \<lceil>fc\<rceil> - i)"
    by simp
qed

declare channel_loop.simps [simp del]

function channels_loop :: "16 word list \<Rightarrow> nat \<Rightarrow> real \<Rightarrow> nat \<Rightarrow> AudioBuffer \<Rightarrow> AudioBuffer" where
  "channels_loop dataInt16 numChannels frameCount channel audioBuffer =
     (if channel < numChannels
      then channels_loop dataInt16 numChannels frameCount (channel + 1)
             (audioBuffer\<lparr> channels := (channels audioBuffer)
                [channel := channel_loop dataInt16 numChannels channel frameCount 0
                              (channels audioBuffer ! channel)] \<rparr>)
      else audioBuffer)"
  by pat_completeness auto
termination
  by (relation "measure (\<lambda>(d, nc, fc, c, b). nc - c)") auto

declare channels_loop.simps [simp del]

text \<open>
  The samples are read from \<open>data.buffer\<close>, the whole ArrayBuffer behind \<open>data\<close>, not
  from the elements of the view.
\<close>

definition decodeAudioData :: "Uint8Array \<Rightarrow> AudioContext \<Rightarrow> nat \<Rightarrow> nat \<Rightarrow> js_error + AudioBuffer" where
  "decodeAudioData data ctx sampleRate numChannels =
     (case new_Int16Array (buffer data) of
        Inl e \<Rightarrow> Inl e
      | Inr dataInt16 \<Rightarrow>
          (let frameCount = real (length dataInt16) / real numChannels
           in case createBuffer ctx numChannels frameCount sampleRate of
                Inl e \<Rightarrow> Inl e
              | Inr audioBuffer \<Rightarrow>
                  Inr (channels_loop dataInt16 numChannels frameCount 0 audioBuffer)))"

section \<open>The application component (index.tsx)\<close>

subsection \<open>State\<close>

record DevotionalContent =
  title :: string
  verseReference :: string
  verseText :: string
  reflection :: string
  application :: string
  prayer :: string

datatype view = Home | Reading | Topics | NotesList

text \<open>
  The prompt sent to the text generator: the topic, or the long form of today's date.
\<close>

datatype prompt = TopicPrompt string | DailyPrompt string

datatype playback_state = Unscheduled | Started | Finished

record source_node =
  playbackState :: playback_state
  connected :: bool
  nodeBuffer :: "AudioBuffer option"

text \<open>
  What the component does to the outside, in order: notices, console messages, the calls
  on the audio handles and the updates of the two audio flags.
\<close>

datatype effect =
    Alert string
  | ConsoleError string
  | SetIsPlaying bool
  | SetIsAudioLoading bool
  | ContextOpen
  | ContextClose
  | SourceStart
  | SourceStop "js_error option"
  | SourceDisconnect

text \<open>
  The React state and refs of \<open>App\<close>, then the world around it: the key-value store,
  the calendar date in its two formats, the requests made to the two generators, and
  the effects so far. A handler runs within one calendar day: every \<open>new Date()\<close> of one
  run reads the same \<open>todayDate\<close>.
\<close>

record app_state =
  view :: view
  content :: "DevotionalContent option"
  isLoading :: bool
  currentTopic :: string
  userNote :: string
  isAudioLoading :: bool
  isPlaying :: bool
  audioContextRef :: "AudioContext option"
  audioSourceRef :: "source_node option"
  localStorage :: "string \<rightharpoonup> string"
  todayDate :: string
  dateStr :: string
  textCalls :: "prompt list"
  audioCalls :: "DevotionalContent list"
  effects :: "effect list"

text \<open>
  The collaborators that are not part of the repository. The generators answer the
  \<open>n\<close>-th request made to them: they throw, or return the text (the audio payload),
  which may be \<open>undefined\<close>. \<open>JSON_parse\<close> yields a value of the type the source casts
  it to.
\<close>

record platform =
  JSON_parse :: "string \<Rightarrow> js_error + DevotionalContent"
  JSON_stringify :: "DevotionalContent \<Rightarrow> string"
  generateText :: "nat \<Rightarrow> prompt \<Rightarrow> js_error + string option"
  generateSpeech :: "nat \<Rightarrow> DevotionalContent \<Rightarrow> js_error + string option"
  atob :: "string \<Rightarrow> js_error + string"
  new_AudioContext :: "nat \<Rightarrow> js_error + AudioContext"

text \<open>JavaScript truthiness of a \<open>string | null | undefined\<close>.\<close>

definition truthy :: "string option \<Rightarrow> bool" where
  "truthy v = (case v of None \<Rightarrow> False | Some t \<Rightarrow> t \<noteq> [])"

text \<open>\<open>a || b\<close> on strings.\<close>

definition or_else :: "string option \<Rightarrow> string \<Rightarrow> string" where
  "or_else v d = (case v of None \<Rightarrow> d | Some t \<Rightarrow> if t \<noteq> [] then t else d)"

subsection \<open>stopAudio\<close>

text \<open>
  \<open>source.stop()\<close> throws InvalidStateError on a node that was never started or has
  already stopped.
\<close>

definition source_stop :: "source_node \<Rightarrow> js_error + source_node" where
  "source_stop src =
     (case playbackState src of
        Started \<Rightarrow> Inr (src\<lparr> playbackState := Finished \<rparr>)
      | Unscheduled \<Rightarrow> Inl InvalidStateError
      | Finished \<Rightarrow> Inl InvalidStateError)"

definition release_source :: "app_state \<Rightarrow> js_error + app_state" where
  "release_source s =
     (case audioSourceRef s of
        None \<Rightarrow> Inr s
      | Some src \<Rightarrow>
          (let s1 = (case source_stop src of
                       Inl e \<Rightarrow> s\<lparr> effects := effects s @ [SourceStop (Some e)] \<rparr>
                     | Inr src' \<Rightarrow> s\<lparr> audioSourceRef := Some src',
                                       effects := effects s @ [SourceStop None] \<rparr>);
               s2 = s1\<lparr> audioSourceRef := map_option (\<lambda>n. n\<lparr> connected := False \<rparr>) (audioSourceRef s1),
                        effects := effects s1 @ [SourceDisconnect] \<rparr>
           in Inr (s2\<lparr> audioSourceRef := None \<rparr>)))"

definition release_context :: "app_state \<Rightarrow> js_error + app_state" where
  "release_context s =
     (case audioContextRef s of
        None \<Rightarrow> Inr s
      | Some ctx \<Rightarrow> Inr (s\<lparr> audioContextRef := None, effects := effects s @ [ContextClose] \<rparr>))"

definition stopAudio :: "app_state \<Rightarrow> js_error + app_state" where
  "stopAudio s =
     (case release_source s of
        Inl e \<Rightarrow> Inl e
      | Inr s1 \<Rightarrow>
          (case release_context s1 of
             Inl e \<Rightarrow> Inl e
           | Inr s2 \<Rightarrow>
               Inr (s2\<lparr> isPlaying := False, isAudioLoading := False,
                        effects := effects s2 @ [SetIsPlaying False, SetIsAudioLoading False] \<rparr>)))"

subsection \<open>handlePlayAudio\<close>

definition audio_alert :: string where
  "audio_alert = ''N'' @ [CHR 0xC3, CHR 0xA3] @ ''o foi poss'' @ [CHR 0xC3, CHR 0xAD]
     @ ''vel gerar o '' @ [CHR 0xC3, CHR 0xA1] @ ''udio agora.''"

text \<open>
  The body of the \<open>try\<close>: the state where it stops and the exception, if one was thrown.
  The text read aloud is built from the content alone, so the request is the content.
\<close>

definition play_try :: "platform \<Rightarrow> DevotionalContent \<Rightarrow> app_state \<Rightarrow> app_state \<times> js_error option" where
  "play_try env c s =
     (let s1 = s\<lparr> audioCalls := audioCalls s @ [c] \<rparr>
      in case generateSpeech env (length (audioCalls s)) c of
           Inl e \<Rightarrow> (s1, Some e)
         | Inr base64Audio \<Rightarrow>
             (case base64Audio of
                None \<Rightarrow> (s1, None)
              | Some b \<Rightarrow>
                  (if b \<noteq> []
                   then (case new_AudioContext env 24000 of
                           Inl e \<Rightarrow> (s1, Some e)
                         | Inr audioCtx \<Rightarrow>
                             (let s2 = s1\<lparr> audioContextRef := Some audioCtx,
                                           effects := effects s1 @ [ContextOpen] \<rparr>
                              in case base64ToUint8Array (atob env) b of
                                   Inl e \<Rightarrow> (s2, Some e)
                                 | Inr audioBytes \<Rightarrow>
                                     (case decodeAudioData audioBytes audioCtx 24000 1 of
                                        Inl e \<Rightarrow> (s2, Some e)
                                      | Inr audioBuffer \<Rightarrow>
                                          (let source = \<lparr> playbackState = Started,
                                                          connected = True,
                                                          nodeBuffer = Some audioBuffer \<rparr>
                                           in (s2\<lparr> audioSourceRef := Some source,
                                                  isPlaying := True,
                                                  effects := effects s2
                                                    @ [SourceStart, SetIsPlaying True] \<rparr>,
                                               None)))))
                   else (s1, None))))"

definition handlePlayAudio :: "platform \<Rightarrow> app_state \<Rightarrow> js_error + app_state" where
  "handlePlayAudio env s =
     (case content s of
        None \<Rightarrow> Inr s
      | Some c \<Rightarrow>
          (if isPlaying s then stopAudio s
           else
             (let s1 = s\<lparr> isAudioLoading := True,
                           effects := effects s @ [SetIsAudioLoading True] \<rparr>;
                  (s2, thrown) = play_try env c s1;
                  s3 = (case thrown of
                          None \<Rightarrow> s2
                        | Some e \<Rightarrow>
                            s2\<lparr> effects := effects s2
                                   @ [ConsoleError ''Error generating audio:'', Alert audio_alert] \<rparr>)
              in Inr (s3\<lparr> isAudioLoading := False,
                          effects := effects s3 @ [SetIsAudioLoading False] \<rparr>))))"

subsection \<open>generateDevotional\<close>

text \<open>Strings are kept as their UTF-8 bytes.\<close>

definition fallbackContent :: DevotionalContent where
  "fallbackContent =
     \<lparr> title =
         ''Um momento de sil''
         @ [CHR 0xC3, CHR 0xAA]
         @ ''ncio'',
       verseReference =
         ''Salmos 46:10'',
       verseText =
         ''Aquietai-vos, e sabei que eu sou Deus.'',
       reflection =
         [CHR 0xC3, CHR 0x80]
         @ ''s vezes, a tecnologia falha, mas a presen''
         @ [CHR 0xC3, CHR 0xA7]
         @ ''a de Deus permanece constante. Respire fundo agora. Talvez este ''
         @ ''erro seja um convite para apenas fechar os olhos e sentir a ''
         @ ''paz que excede todo o entendimento.''
         @ [CHR 0x0A, CHR 0x0A]
         @ ''Deus est''
         @ [CHR 0xC3, CHR 0xA1]
         @ '' no sil''
         @ [CHR 0xC3, CHR 0xAA]
         @ ''ncio tamb''
         @ [CHR 0xC3, CHR 0xA9]
         @ ''m. Ele est''
         @ [CHR 0xC3, CHR 0xA1]
         @ '' no espa''
         @ [CHR 0xC3, CHR 0xA7]
         @ ''o entre um pensamento e outro. Sinta-se abra''
         @ [CHR 0xC3, CHR 0xA7]
         @ ''ado pelo Criador agora mesmo.'',
       application =
         ''Feche os olhos por 1 minuto e apenas respire.'',
       prayer =
         ''Senhor, obrigado por estar comigo mesmo quando as coisas n''
         @ [CHR 0xC3, CHR 0xA3]
         @ ''o saem como planejado. Am''
         @ [CHR 0xC3, CHR 0xA9]
         @ ''m.'' \<rparr>"

definition cacheKey :: "string \<Rightarrow> string" where
  "cacheKey today = ''daily_devotional_'' @ today"

text \<open>
  A request to the text generator that has been made and has not settled yet: the topic
  of the call that made it, its number among the requests, and its prompt.
\<close>

record pending =
  reqTopic :: "string option"
  reqIndex :: nat
  reqPrompt :: prompt

text \<open>
  Lines 343 to 379: the generation, reached for a topic or on a daily miss, up to the
  \<open>await\<close> of the generator. The request is counted when it is made, whatever its
  outcome.
\<close>

definition generate_begin :: "string option \<Rightarrow> app_state \<Rightarrow> app_state \<times> pending" where
  "generate_begin topic s =
     (let s1 = s\<lparr> isLoading := True,
                   currentTopic := or_else topic ''Devocional do Dia'',
                   view := Reading \<rparr>;
          promptContext = (case topic of
                             None \<Rightarrow> DailyPrompt (dateStr s1)
                           | Some t \<Rightarrow> if t \<noteq> [] then TopicPrompt t else DailyPrompt (dateStr s1))
      in (s1\<lparr> textCalls := textCalls s1 @ [promptContext] \<rparr>,
          \<lparr> reqTopic = topic, reqIndex = length (textCalls s1), reqPrompt = promptContext \<rparr>))"

text \<open>
  Lines 379 to 401: the rest of the \<open>try\<close>, run when the generator settles, on the
  state of that moment. The result is the state where it stops and the exception, if one
  was thrown.
\<close>

definition remote_try :: "platform \<Rightarrow> pending \<Rightarrow> app_state \<Rightarrow> app_state \<times> js_error option" where
  "remote_try env p s =
     (case generateText env (reqIndex p) (reqPrompt p) of
        Inl e \<Rightarrow> (s, Some e)
      | Inr text \<Rightarrow>
          (case text of
             None \<Rightarrow> (s, None)
           | Some t \<Rightarrow>
               (if t \<noteq> []
                then (case JSON_parse env t of
                        Inl e \<Rightarrow> (s, Some e)
                      | Inr data \<Rightarrow>
                          (let s2 = s\<lparr> content := Some data \<rparr>
                           in if \<not> truthy (reqTopic p)
                              then (s2\<lparr> localStorage := (localStorage s2)
                                       (cacheKey (todayDate s2) \<mapsto> JSON_stringify env data) \<rparr>,
                                    None)
                              else (s2, None)))
                else (s, None))))"

text \<open>Lines 379 to 414: the \<open>try\<close>, its \<open>catch\<close> and its \<open>finally\<close>.\<close>

definition generate_settle :: "platform \<Rightarrow> pending \<Rightarrow> app_state \<Rightarrow> js_error + app_state" where
  "generate_settle env p s =
     (let (s2, thrown) = remote_try env p s;
          s3 = (case thrown of
                  None \<Rightarrow> s2
                | Some e \<Rightarrow>
                    s2\<lparr> effects := effects s2 @ [ConsoleError ''Erro ao gerar devocional''],
                        content := Some fallbackContent \<rparr>)
      in Inr (s3\<lparr> isLoading := False \<rparr>))"

text \<open>
  Lines 318 to 379: \<open>generateDevotional\<close> up to its only \<open>await\<close>. It ends on a cache
  hit, or leaves a request to the generator pending.
\<close>

definition generateDevotional_start ::
    "platform \<Rightarrow> string option \<Rightarrow> app_state \<Rightarrow> js_error + app_state \<times> pending option" where
  "generateDevotional_start env topic s =
     (case stopAudio s of
        Inl e \<Rightarrow> Inl e
      | Inr s0 \<Rightarrow>
          (let s1 = s0\<lparr> userNote := [] \<rparr>
           in if \<not> truthy topic
              then
                (let key = cacheKey (todayDate s1);
                     cachedData = localStorage s1 key
                 in case cachedData of
                      None \<Rightarrow> Inr (map_prod id Some (generate_begin topic s1))
                    | Some cd \<Rightarrow>
                        (if cd \<noteq> []
                         then (case JSON_parse env cd of
                                 Inr parsed \<Rightarrow>
                                   Inr (s1\<lparr> content := Some parsed,
                                           currentTopic := ''Devocional do Dia'',
                                           view := Reading \<rparr>, None)
                               | Inl e \<Rightarrow>
                                   Inr (map_prod id Some (generate_begin topic
                                     (s1\<lparr> effects := effects s1 @ [ConsoleError ''Cache corrupted''],
                                         localStorage := (localStorage s1)(key := None) \<rparr>))))
                         else Inr (map_prod id Some (generate_begin topic s1))))
              else Inr (map_prod id Some (generate_begin topic s1))))"

text \<open>A call that nothing interrupts: the request settles before anything else runs.\<close>

definition generateDevotional :: "platform \<Rightarrow> string option \<Rightarrow> app_state \<Rightarrow> js_error + app_state" where
  "generateDevotional env topic s =
     (case generateDevotional_start env topic s of
        Inl e \<Rightarrow> Inl e
      | Inr (s1, None) \<Rightarrow> Inr s1
      | Inr (s1, Some p) \<Rightarrow> generate_settle env p s1)"

text \<open>
  \<open>n\<close> requests for the devotional of the day, each one settled before the next is
  made.
\<close>

fun daily_calls :: "platform \<Rightarrow> nat \<Rightarrow> app_state \<Rightarrow> js_error + app_state" where
  "daily_calls env 0 s = Inr s"
| "daily_calls env (Suc n) s =
     (case generateDevotional env None s of
        Inl e \<Rightarrow> Inl e
      | Inr s' \<Rightarrow> daily_calls env n s')"

text \<open>
  Calls may overlap: the handler is suspended at the \<open>await\<close>, and another call can
  start before the request of the first settles. A schedule is a list of steps: a call
  is made, or the \<open>k\<close>-th of the pending requests settles.
\<close>

datatype step = Invoke "string option" | Settle nat

fun run :: "platform \<Rightarrow> step list \<Rightarrow> app_state \<times> pending list
    \<Rightarrow> js_error + app_state \<times> pending list" where
  "run env [] (s, q) = Inr (s, q)"
| "run env (Invoke topic # steps) (s, q) =
     (case generateDevotional_start env topic s of
        Inl e \<Rightarrow> Inl e
      | Inr (s1, None) \<Rightarrow> run env steps (s1, q)
      | Inr (s1, Some p) \<Rightarrow> run env steps (s1, q @ [p]))"
| "run env (Settle k # steps) (s, q) =
     (if k < length q
      then (case generate_settle env (q ! k) s of
              Inl e \<Rightarrow> Inl e
            | Inr s1 \<Rightarrow> run env steps (s1, take k q @ drop (Suc k) q))
      else run env steps (s, q))"

text \<open>The entry stored under the key of the day.\<close>

definition stored_today :: "app_state \<Rightarrow> string option" where
  "stored_today s = localStorage s (cacheKey (todayDate s))"

section \<open>The service worker\<close>

text \<open>A request: its URL, the origin of the URL, and its \<open>.method\<close>.\<close>

record request =
  url :: string
  origin :: string
  requestMethod :: string

record response =
  status :: nat
  vary :: "string list"
  body :: string

type_synonym cache = "request \<rightharpoonup> response"

text \<open>The cache storage: the named caches, in the order of their creation.\<close>

type_synonym cache_storage = "(string \<times> cache) list"

definition CACHE_NAME :: string where
  "CACHE_NAME = ''devocional-v8''"

text \<open>\<open>String.prototype.includes\<close>: the second string occurs in the first.\<close>

fun starts_with :: "string \<Rightarrow> string \<Rightarrow> bool" where
  "starts_with s [] = True"
| "starts_with [] (c # cs) = False"
| "starts_with (x # xs) (c # cs) = (x = c \<and> starts_with xs cs)"

fun includes_str :: "string \<Rightarrow> string \<Rightarrow> bool" where
  "includes_str [] sub = (sub = [])"
| "includes_str (x # xs) sub = (starts_with (x # xs) sub \<or> includes_str xs sub)"

text \<open>\<open>caches.open\<close> creates the cache when it does not exist yet.\<close>

definition caches_open :: "string \<Rightarrow> cache_storage \<Rightarrow> cache \<times> cache_storage" where
  "caches_open name cs =
     (case map_of cs name of
        Some c \<Rightarrow> (c, cs)
      | None \<Rightarrow> (Map.empty, cs @ [(name, Map.empty)]))"

definition caches_keys :: "cache_storage \<Rightarrow> string list" where
  "caches_keys cs = map fst cs"

definition caches_delete :: "string \<Rightarrow> cache_storage \<Rightarrow> cache_storage" where
  "caches_delete name cs = filter (\<lambda>(n, c). n \<noteq> name) cs"

text \<open>\<open>cache.match\<close>: only a GET request matches an entry.\<close>

definition cache_match :: "cache \<Rightarrow> request \<Rightarrow> response option" where
  "cache_match c req = (if requestMethod req = ''GET'' then c req else None)"

text \<open>\<open>caches.match\<close>: the first cache, in the order of creation, that has the request.\<close>

fun caches_match :: "request \<Rightarrow> cache_storage \<Rightarrow> response option" where
  "caches_match req [] = None"
| "caches_match req ((n, c) # cs) =
     (case cache_match c req of Some r \<Rightarrow> Some r | None \<Rightarrow> caches_match req cs)"

text \<open>
  \<open>cache.put\<close> on the cache opened under a name. It rejects with TypeError a request
  that is not a GET, a response with status 206 and a response whose Vary header holds
  \<open>*\<close>. (A fetch event is only dispatched for http and https requests, so the scheme is
  always one that \<open>put\<close> accepts.)
\<close>

definition put_accepts :: "request \<Rightarrow> response \<Rightarrow> bool" where
  "put_accepts req resp =
     (requestMethod req = ''GET'' \<and> status resp \<noteq> 206 \<and> ''*'' \<notin> set (vary resp))"

definition cache_put :: "string \<Rightarrow> request \<Rightarrow> response \<Rightarrow> cache_storage
    \<Rightarrow> js_error + cache_storage" where
  "cache_put name req resp cs =
     (if put_accepts req resp
      then Inr (map (\<lambda>(n, c). if n = name then (n, c(req \<mapsto> resp)) else (n, c)) cs)
      else Inl TypeError)"

record sw_state =
  caches :: cache_storage
  fetched :: "request list"

definition swr_origin :: "string \<Rightarrow> bool" where
  "swr_origin org =
     (includes_str org ''esm.sh'' \<or> includes_str org ''cdn.tailwindcss.com''
      \<or> includes_str org ''fonts.googleapis.com'' \<or> includes_str org ''fonts.gstatic.com'')"

text \<open>
  The fetch listener. \<open>net\<close> is the network: the response, or the failure of the
  request. The result is what \<open>respondWith\<close> settles to, and the state once the
  promises of the handler have settled. The promise of \<open>cache.put\<close> is neither awaited
  nor caught: when it rejects, the cache is what it was and the response is still returned.
\<close>

definition on_fetch :: "(request \<Rightarrow> js_error + response) \<Rightarrow> request \<Rightarrow> sw_state
    \<Rightarrow> (js_error + response) \<times> sw_state" where
  "on_fetch net req st =
     (if swr_origin (origin req)
      then
        (let (cache, cs1) = caches_open CACHE_NAME (caches st);
             response = cache_match cache req;
             fetchPromise = net req;
             cs2 = (case fetchPromise of
                      Inr networkResponse \<Rightarrow>
                        (case cache_put CACHE_NAME req networkResponse cs1 of
                           Inr cs' \<Rightarrow> cs'
                         | Inl e \<Rightarrow> cs1)
                    | Inl e \<Rightarrow> cs1);
             st' = st\<lparr> caches := cs2, fetched := fetched st @ [req] \<rparr>
         in (case response of Some r \<Rightarrow> (Inr r, st') | None \<Rightarrow> (fetchPromise, st')))
      else
        (case caches_match req (caches st) of
           Some r \<Rightarrow> (Inr r, st)
         | None \<Rightarrow> (net req, st\<lparr> fetched := fetched st @ [req] \<rparr>)))"

text \<open>\<open>Array.prototype.indexOf\<close>: the first position of the element, or \<open>-1\<close>.\<close>

fun indexOf :: "'a list \<Rightarrow> 'a \<Rightarrow> int" where
  "indexOf [] x = - 1"
| "indexOf (y # ys) x =
     (if y = x then 0 else (let k = indexOf ys x in if k = - 1 then - 1 else k + 1))"

text \<open>The activate listener: one step for each name that \<open>caches.keys()\<close> returned.\<close>

fun activate_loop :: "string list \<Rightarrow> string list \<Rightarrow> cache_storage \<Rightarrow> cache_storage" where
  "activate_loop cacheWhitelist [] cs = cs"
| "activate_loop cacheWhitelist (cacheName # cacheNames) cs =
     activate_loop cacheWhitelist cacheNames
       (if indexOf cacheWhitelist cacheName = - 1 then caches_delete cacheName cs else cs)"

definition on_activate :: "sw_state \<Rightarrow> sw_state" where
  "on_activate st =
     (let cacheWhitelist = [CACHE_NAME]
      in st\<lparr> caches := activate_loop cacheWhitelist (caches_keys (caches st)) (caches st) \<rparr>)"

section \<open>Sample inputs\<close>

text \<open>The state of \<open>App\<close> when it mounts, on a given day, with an empty store.\<close>

definition initial_state :: "string \<Rightarrow> string \<Rightarrow> app_state" where
  "initial_state today long =
     \<lparr> view = Home, content = None, isLoading = False, currentTopic = [], userNote = [],
       isAudioLoading = False, isPlaying = False, audioContextRef = None,
       audioSourceRef = None, localStorage = Map.empty, todayDate = today, dateStr = long,
       textCalls = [], audioCalls = [], effects = [] \<rparr>"

definition sample_content :: DevotionalContent where
  "sample_content =
     \<lparr> title = ''X'', verseReference = ''Salmos 23:1'', verseText = ''V'',
       reflection = ''R'', application = ''A'', prayer = ''P'' \<rparr>"

definition sample_context :: AudioContext where
  "sample_context = \<lparr> maxChannels = 32, minRate = 8000, maxRate = 96000 \<rparr>"

text \<open>Scripts for a generator: what it answers to its \<open>n\<close>-th request.\<close>

definition always_throws :: "nat \<Rightarrow> js_error + string option" where
  "always_throws n = Inl NetworkError"

definition always_returns :: "string option \<Rightarrow> nat \<Rightarrow> js_error + string option" where
  "always_returns r n = Inr r"


text \<open>
  A platform whose JSON codec knows one document, whose \<open>atob\<close> knows one payload (two
  zero bytes), and whose generators follow the given scripts.
\<close>

definition sample_platform ::
    "(nat \<Rightarrow> js_error + string option) \<Rightarrow> (nat \<Rightarrow> js_error + string option) \<Rightarrow> platform" where
  "sample_platform text_script speech_script =
     \<lparr> JSON_parse = (\<lambda>t. if t = ''{title: X}'' then Inr sample_content else Inl SyntaxError),
       JSON_stringify = (\<lambda>d. ''{title: X}''),
       generateText = (\<lambda>n p. text_script n),
       generateSpeech = (\<lambda>n c. speech_script n),
       atob = (\<lambda>b. if b = ''AAA='' then Inr [CHR 0x00, CHR 0x00] else Inl InvalidCharacterError),
       new_AudioContext = (\<lambda>rate. Inr sample_context) \<rparr>"

text \<open>
  A GET request to an allow-listed host, responses without a Vary header, and a network
  that answers or fails.
\<close>

definition esm_request :: request where
  "esm_request = \<lparr> url = ''https://esm.sh/react'', origin = ''https://esm.sh'', requestMethod = ''GET'' \<rparr>"

definition http_response :: "nat \<Rightarrow> string \<Rightarrow> response" where
  "http_response code text = \<lparr> status = code, vary = [], body = text \<rparr>"

definition network_up :: "response \<Rightarrow> request \<Rightarrow> js_error + response" where
  "network_up r req = Inr r"

definition network_down :: "request \<Rightarrow> js_error + response" where
  "network_down req = Inl NetworkError"

text \<open>A Uint8Array that owns its buffer, as \<open>base64ToUint8Array\<close> returns it.\<close>

definition bytes_of :: "byte list \<Rightarrow> Uint8Array" where
  "bytes_of bs = \<lparr> buffer = bs, byteOffset = 0, byteLength = length bs \<rparr>"

text \<open>A decoder that knows the payload \<open>QQ==\<close>, the one byte \<open>A\<close>.\<close>

definition decode_one_byte :: "string \<Rightarrow> js_error + string" where
  "decode_one_byte b = (if b = ''QQ=='' then Inr ''A'' else Inl InvalidCharacterError)"

section \<open>Properties of the audio helpers\<close>

subsection \<open>The loops\<close>

lemma set_element_shape:
  "byteOffset (set_element b i v) = byteOffset b
   \<and> byteLength (set_element b i v) = byteLength b
   \<and> length (buffer (set_element b i v)) = length (buffer b)"
  by (simp add: set_element_def)

lemma bytes_loop_shape:
  "byteOffset (bytes_loop str len i b) = byteOffset b
   \<and> byteLength (bytes_loop str len i b) = byteLength b
   \<and> length (buffer (bytes_loop str len i b)) = length (buffer b)"
proof (induction str len i b rule: bytes_loop.induct)
  case (1 str len i b)
  show ?case
  proof (cases "i < len")
    case True
    with 1 show ?thesis
      by (subst (1 2 3) bytes_loop.simps) (simp add: set_element_shape)
  next
    case False
    then show ?thesis by (subst (1 2 3) bytes_loop.simps) simp
  qed
qed

lemma nth_bytes_loop:
  "byteOffset b = 0 \<Longrightarrow> byteLength b = len \<Longrightarrow> length (buffer b) = len \<Longrightarrow> k < len \<Longrightarrow>
   buffer (bytes_loop str len i b) ! k = (if i \<le> k then of_char (str ! k) else buffer b ! k)"
proof (induction str len i b rule: bytes_loop.induct)
  case (1 str len i b)
  show ?case
  proof (cases "i < len")
    case True
    let ?b = "set_element b i (of_char (str ! i))"
    have sh: "byteOffset ?b = 0" "byteLength ?b = len" "length (buffer ?b) = len"
      using "1.prems" by (simp_all add: set_element_shape)
    have upd: "buffer ?b = (buffer b)[i := of_char (str ! i)]"
      using True "1.prems" by (simp add: set_element_def)
    have "buffer (bytes_loop str len i b) ! k = buffer (bytes_loop str len (i + 1) ?b) ! k"
      using True by (subst bytes_loop.simps) simp
    also have "\<dots> = (if i + 1 \<le> k then of_char (str ! k) else buffer ?b ! k)"
      using "1.IH" [OF True sh "1.prems"(4)] .
    also have "\<dots> = (if i \<le> k then of_char (str ! k) else buffer b ! k)"
      using True "1.prems" by (cases "k = i") (auto simp: upd)
    finally show ?thesis .
  next
    case False
    then have "bytes_loop str len i b = b"
      by (subst bytes_loop.simps) simp
    with False "1.prems" show ?thesis by auto
  qed
qed

text \<open>
  The array that \<open>base64ToUint8Array\<close> returns owns its buffer, and the bytes of the
  buffer are the character codes of the decoded string.
\<close>

lemma base64ToUint8Array_eq:
  "base64ToUint8Array decode payload =
     (case decode payload of
        Inl e \<Rightarrow> Inl e
      | Inr str \<Rightarrow> Inr (bytes_of (map of_char str)))"
proof (cases "decode payload")
  case (Inl e)
  then show ?thesis by (simp add: base64ToUint8Array_def)
next
  case (Inr str)
  let ?n = "length str"
  let ?r = "bytes_loop str ?n 0 (new_Uint8Array ?n)"
  have sh: "byteOffset ?r = 0" "byteLength ?r = ?n" "length (buffer ?r) = ?n"
    using bytes_loop_shape [of str ?n 0 "new_Uint8Array ?n"]
    by (simp_all add: new_Uint8Array_def)
  have "buffer ?r = map of_char str"
  proof (rule nth_equalityI)
    show "length (buffer ?r) = length (map of_char str :: byte list)"
      using sh by simp
  next
    fix k assume "k < length (buffer ?r)"
    then have k: "k < ?n" using sh by simp
    show "buffer ?r ! k = (map of_char str :: byte list) ! k"
      using nth_bytes_loop [of "new_Uint8Array ?n" ?n k str 0] k
      by (simp add: new_Uint8Array_def)
  qed
  then have "?r = bytes_of (map of_char str)"
    using sh by (intro Uint8Array.equality) (simp_all add: bytes_of_def)
  with Inr show ?thesis by (simp add: base64ToUint8Array_def Let_def)
qed

lemma length_int16_view: "length (int16_view data) = length data div 2"
  by (induction data rule: int16_view.induct) simp_all

lemma length_channel_loop: "length (channel_loop d nc c fc i cd) = length cd"
proof (induction d nc c fc i cd rule: channel_loop.induct)
  case (1 d nc c fc i cd)
  show ?case
  proof (cases "real i < fc")
    case True
    with 1 show ?thesis by (subst channel_loop.simps) simp
  next
    case False
    then show ?thesis by (subst channel_loop.simps) simp
  qed
qed

lemma nth_channel_loop:
  "k < length cd \<Longrightarrow>
   channel_loop d nc c fc i cd ! k =
     (if i \<le> k \<and> real k < fc then sample_at d (k * nc + c) else cd ! k)"
proof (induction d nc c fc i cd rule: channel_loop.induct)
  case (1 d nc c fc i cd)
  show ?case
  proof (cases "real i < fc")
    case True
    have "channel_loop d nc c fc i cd ! k =
          channel_loop d nc c fc (i + 1) (cd[i := sample_at d (i * nc + c)]) ! k"
      using True by (subst channel_loop.simps) simp
    also have "\<dots> = (if i + 1 \<le> k \<and> real k < fc then sample_at d (k * nc + c)
                     else cd[i := sample_at d (i * nc + c)] ! k)"
      using 1 True by simp
    also have "\<dots> = (if i \<le> k \<and> real k < fc then sample_at d (k * nc + c) else cd ! k)"
      using True "1.prems" by (cases "k = i") auto
    finally show ?thesis .
  next
    case False
    then have "channel_loop d nc c fc i cd = cd"
      by (subst channel_loop.simps) simp
    moreover from False have "\<not> (i \<le> k \<and> real k < fc)"
      by auto
    ultimately show ?thesis by auto
  qed
qed

lemma channels_loop_fields:
  "numberOfChannels (channels_loop d nc fc c b) = numberOfChannels b \<and>
   frames (channels_loop d nc fc c b) = frames b \<and>
   bufferRate (channels_loop d nc fc c b) = bufferRate b \<and>
   length (channels (channels_loop d nc fc c b)) = length (channels b)"
proof (induction d nc fc c b rule: channels_loop.induct)
  case (1 d nc fc c b)
  show ?case
  proof (cases "c < nc")
    case True
    with 1 show ?thesis by (subst (1 2 3 4) channels_loop.simps) simp
  next
    case False
    then show ?thesis by (subst (1 2 3 4) channels_loop.simps) simp
  qed
qed

lemma nth_channels_loop:
  "ch < length (channels b) \<Longrightarrow>
   channels (channels_loop d nc fc c b) ! ch =
     (if c \<le> ch \<and> ch < nc then channel_loop d nc ch fc 0 (channels b ! ch)
      else channels b ! ch)"
proof (induction d nc fc c b rule: channels_loop.induct)
  case (1 d nc fc c b)
  show ?case
  proof (cases "c < nc")
    case True
    let ?b = "b\<lparr> channels := (channels b)[c := channel_loop d nc c fc 0 (channels b ! c)] \<rparr>"
    have "channels (channels_loop d nc fc c b) ! ch = channels (channels_loop d nc fc (c + 1) ?b) ! ch"
      using True by (subst channels_loop.simps) simp
    also have "\<dots> = (if c + 1 \<le> ch \<and> ch < nc then channel_loop d nc ch fc 0 (channels ?b ! ch)
                     else channels ?b ! ch)"
      using 1 True by simp
    also have "\<dots> = (if c \<le> ch \<and> ch < nc then channel_loop d nc ch fc 0 (channels b ! ch)
                     else channels b ! ch)"
      using True "1.prems" by (cases "ch = c") auto
    finally show ?thesis .
  next
    case False
    then have "channels_loop d nc fc c b = b"
      by (subst channels_loop.simps) simp
    moreover from False have "\<not> (c \<le> ch \<and> ch < nc)"
      by auto
    ultimately show ?thesis by auto
  qed
qed


lemma nth_int16_view:
  "2 * i + 1 < length data \<Longrightarrow> int16_view data ! i = word_cat (data ! (2 * i + 1)) (data ! (2 * i))"
proof (induction data arbitrary: i rule: int16_view.induct)
  case (1 lo hi rest)
  then show ?case by (cases i) simp_all
qed simp_all

lemma sint16_bounds:
  fixes w :: "16 word"
  shows "- 32768 \<le> sint w \<and> sint w \<le> 32767"
  using sint_ge [of w] sint_lt [of w] by simp

lemma frame_index_less:
  fixes i nc L :: nat
  assumes "i < L div nc" and "0 < nc"
  shows "real i < real L / real nc"
proof -
  from assms(1) have "Suc i \<le> L div nc" by simp
  then have "Suc i * nc \<le> L div nc * nc" by (rule mult_le_mono1)
  also have "\<dots> \<le> L" by simp
  finally have "Suc i * nc \<le> L" .
  then have "i * nc < L" using assms(2) by simp
  then have "real i * real nc < real L"
    by (metis of_nat_less_iff of_nat_mult)
  then show ?thesis using assms(2) by (simp add: pos_less_divide_eq)
qed

text \<open>
  With at least one whole frame in a backing buffer of even length, decoding succeeds and
  de-interleaves the whole frames.
\<close>

lemma decodeAudioData_frames:
  assumes ev: "even (length (buffer data))"
    and nc: "0 < nc" "nc \<le> maxChannels ctx"
    and sr: "minRate ctx \<le> sr" "sr \<le> maxRate ctx"
    and fr: "nc \<le> length (buffer data) div 2"
  shows "\<exists>buf. decodeAudioData data ctx sr nc = Inr buf
           \<and> numberOfChannels buf = nc \<and> frames buf = length (buffer data) div 2 div nc
           \<and> bufferRate buf = sr \<and> length (channels buf) = nc
           \<and> (\<forall>c < nc. length (channels buf ! c) = length (buffer data) div 2 div nc
                \<and> (\<forall>i < length (buffer data) div 2 div nc.
                      channels buf ! c ! i = sample_at (int16_view (buffer data)) (i * nc + c)))"
proof -
  let ?d = "int16_view (buffer data)"
  let ?L = "length (buffer data) div 2"
  let ?F = "?L div nc"
  let ?fc = "real (length ?d) / real nc"
  let ?b0 = "\<lparr> numberOfChannels = nc, frames = ?F, bufferRate = sr,
               channels = replicate nc (replicate ?F (Num 0)) \<rparr>"
  have len: "length ?d = ?L" by (rule length_int16_view)
  have fl: "nat \<lfloor>?fc\<rfloor> = ?F"
    by (simp add: len floor_divide_of_nat_eq)
  have Fpos: "0 < ?F" using fr nc(1) by (simp add: div_greater_zero_iff)
  have cb: "createBuffer ctx nc ?fc sr = Inr ?b0"
    using nc sr Fpos fl by (simp add: createBuffer_def Let_def)
  have dec: "decodeAudioData data ctx sr nc = Inr (channels_loop ?d nc ?fc 0 ?b0)"
    using ev cb by (simp add: decodeAudioData_def new_Int16Array_def Let_def)
  let ?buf = "channels_loop ?d nc ?fc 0 ?b0"
  have fields: "numberOfChannels ?buf = nc" "frames ?buf = ?F" "bufferRate ?buf = sr"
    "length (channels ?buf) = nc"
    using channels_loop_fields [of ?d nc ?fc 0 ?b0] by simp_all
  have chan: "length (channels ?buf ! c) = ?F
              \<and> (\<forall>i < ?F. channels ?buf ! c ! i = sample_at ?d (i * nc + c))" if c: "c < nc" for c
  proof -
    have eq: "channels ?buf ! c = channel_loop ?d nc c ?fc 0 (replicate ?F (Num 0))"
      using c nth_channels_loop [of c ?b0 ?d nc ?fc 0] by simp
    have "channel_loop ?d nc c ?fc 0 (replicate ?F (Num 0)) ! i = sample_at ?d (i * nc + c)"
      if i: "i < ?F" for i
    proof -
      have "real i < ?fc" using frame_index_less [OF _ nc(1), of i ?L] i by (simp add: len)
      then show ?thesis using i nth_channel_loop [of i "replicate ?F (Num 0)" ?d nc c ?fc 0]
        by simp
    qed
    then show ?thesis by (simp add: eq length_channel_loop)
  qed
  show ?thesis
    using dec fields chan by blast
qed

subsection \<open>Decoding one channel\<close>

text \<open>
  C4, as stated, fails at three arrays. A buffer of one byte (what \<open>atob\<close> returns for
  the valid payload \<open>QQ==\<close>): the Int16Array constructor throws RangeError. An empty
  buffer: \<open>createBuffer\<close> is asked for zero frames and throws NotSupportedError. A view
  of two bytes in the middle of a buffer of four: the function reads \<open>data.buffer\<close> and
  returns two frames, not one.
\<close>

theorem decodeAudioData_odd_counterexample:
  "decodeAudioData (bytes_of [0x41]) sample_context 24000 1 = Inl RangeError
   \<and> decodeAudioData (bytes_of []) sample_context 24000 1 = Inl NotSupportedError
   \<and> decodeAudioData \<lparr> buffer = [0x01, 0x00, 0x02, 0x00], byteOffset = 2, byteLength = 2 \<rparr>
         sample_context 24000 1 =
       Inr \<lparr> numberOfChannels = 1, frames = 2, bufferRate = 24000,
             channels = [[Num (1 / 32768), Num (2 / 32768)]] \<rparr>"
proof -
  have two: "replicate 2 x = [x, x]" for x :: f32
    by (simp add: numeral_2_eq_2)
  show ?thesis
    by (simp add: decodeAudioData_def new_Int16Array_def createBuffer_def sample_context_def
        bytes_of_def word_cat_eq channels_loop.simps channel_loop.simps sample_at_def two)
qed

text \<open>
  C4, amended: on a context that supports one channel and the sample rate, for every
  Uint8Array whose backing buffer \<open>data.buffer\<close> has even, non-zero length,
  \<open>decodeAudioData\<close> with \<open>numChannels = 1\<close> returns a buffer with exactly one sample
  array, of length \<open>frameCount = length (buffer data) div 2\<close>, whose index \<open>i\<close> holds the
  little-endian signed 16-bit sample at position \<open>i\<close> of the backing buffer divided by
  32768; an empty backing buffer is rejected with NotSupportedError. Every sample is in
  \<open>[-32768, 32767]\<close> before the division and in \<open>[-1, 1]\<close> after it. For a payload that
  \<open>atob\<close> decodes, \<open>base64ToUint8Array\<close> returns an array whose backing buffer is exactly
  the decoded bytes, so there the sample count is half the number of decoded bytes.
\<close>

theorem decodeAudioData_mono:
  assumes ch: "1 \<le> maxChannels ctx"
    and sr: "minRate ctx \<le> sr" "sr \<le> maxRate ctx"
  shows "(even (length (buffer data)) \<and> buffer data \<noteq> [] \<longrightarrow>
            decodeAudioData data ctx sr 1 =
              Inr \<lparr> numberOfChannels = 1, frames = length (buffer data) div 2, bufferRate = sr,
                    channels = [map (\<lambda>w. Num (real_of_int (sint w) / 32768))
                                  (int16_view (buffer data))] \<rparr>)
         \<and> (buffer data = [] \<longrightarrow> decodeAudioData data ctx sr 1 = Inl NotSupportedError)
         \<and> length (int16_view (buffer data)) = length (buffer data) div 2
         \<and> (\<forall>i < length (buffer data) div 2.
               int16_view (buffer data) ! i
                 = word_cat (buffer data ! (2 * i + 1)) (buffer data ! (2 * i)))
         \<and> (\<forall>w \<in> set (int16_view (buffer data)).
               - 32768 \<le> sint w \<and> sint w \<le> 32767
               \<and> - 1 \<le> real_of_int (sint w) / 32768 \<and> real_of_int (sint w) / 32768 \<le> 1)
         \<and> (\<forall>str. decode payload = Inr str \<longrightarrow>
               base64ToUint8Array decode payload = Inr (bytes_of (map of_char str))
               \<and> buffer (bytes_of (map of_char str :: byte list)) = map of_char str)"
proof -
  let ?d = "int16_view (buffer data)"
  let ?L = "length (buffer data) div 2"
  have len: "length ?d = ?L" by (rule length_int16_view)
  have main: "decodeAudioData data ctx sr 1 =
      Inr \<lparr> numberOfChannels = 1, frames = ?L, bufferRate = sr,
            channels = [map (\<lambda>w. Num (real_of_int (sint w) / 32768)) ?d] \<rparr>"
    if ev: "even (length (buffer data))" and ne: "buffer data \<noteq> []"
  proof -
    from ev ne have two: "2 \<le> length (buffer data)"
      by (cases "buffer data" rule: int16_view.cases) simp_all
    then have fr: "1 \<le> ?L" by simp
    from decodeAudioData_frames [OF ev _ _ sr, of 1] ch fr
    obtain buf where dec: "decodeAudioData data ctx sr 1 = Inr buf"
      and f: "numberOfChannels buf = 1" "frames buf = ?L" "bufferRate buf = sr"
        "length (channels buf) = 1"
      and c0: "length (channels buf ! 0) = ?L"
        "\<forall>i < ?L. channels buf ! 0 ! i = sample_at ?d i"
      by auto
    have "channels buf ! 0 = map (\<lambda>w. Num (real_of_int (sint w) / 32768)) ?d"
      by (rule nth_equalityI) (simp_all add: c0 len sample_at_def)
    moreover have "channels buf = [channels buf ! 0]"
      using f(4) by (cases "channels buf") simp_all
    ultimately have chs: "channels buf = [map (\<lambda>w. Num (real_of_int (sint w) / 32768)) ?d]"
      by simp
    have "buf = \<lparr> numberOfChannels = 1, frames = ?L, bufferRate = sr,
                  channels = [map (\<lambda>w. Num (real_of_int (sint w) / 32768)) ?d] \<rparr>"
      using f chs by (intro AudioBuffer.equality) simp_all
    with dec show ?thesis by simp
  qed
  have empty: "decodeAudioData data ctx sr 1 = Inl NotSupportedError" if "buffer data = []"
    using that by (simp add: decodeAudioData_def new_Int16Array_def createBuffer_def)
  have le: "\<forall>i < ?L. ?d ! i = word_cat (buffer data ! (2 * i + 1)) (buffer data ! (2 * i))"
  proof (intro allI impI)
    fix i assume "i < ?L"
    then have "2 * i + 1 < length (buffer data)" by presburger
    then show "?d ! i = word_cat (buffer data ! (2 * i + 1)) (buffer data ! (2 * i))"
      by (rule nth_int16_view)
  qed
  have bd: "- 32768 \<le> sint w \<and> sint w \<le> 32767
            \<and> - 1 \<le> real_of_int (sint w) / 32768 \<and> real_of_int (sint w) / 32768 \<le> 1"
    for w :: "16 word"
  proof -
    have a: "- 32768 \<le> sint w" "sint w \<le> 32767"
      using sint16_bounds [of w] by simp_all
    have "real_of_int (- 32768) \<le> real_of_int (sint w)"
      using a(1) by (simp only: of_int_le_iff)
    moreover have "real_of_int (sint w) \<le> real_of_int 32767"
      using a(2) by (simp only: of_int_le_iff)
    ultimately show ?thesis using a by simp
  qed
  have b64: "\<forall>str. decode payload = Inr str \<longrightarrow>
               base64ToUint8Array decode payload = Inr (bytes_of (map of_char str))
               \<and> buffer (bytes_of (map of_char str :: byte list)) = map of_char str"
    by (simp add: base64ToUint8Array_eq bytes_of_def)
  show ?thesis
    using main empty len le bd b64 by blast
qed

text \<open>
  The amended C4 at the four bytes \<open>FE FF 00 80\<close> (the samples \<open>-2\<close> and \<open>-32768\<close>), at
  the empty buffer, and at the payload \<open>AAA=\<close>.
\<close>

theorem decodeAudioData_mono_witness:
  "1 \<le> maxChannels sample_context
   \<and> minRate sample_context \<le> 24000 \<and> 24000 \<le> maxRate sample_context
   \<and> even (length (buffer (bytes_of [0xFE, 0xFF, 0x00, 0x80])))
   \<and> buffer (bytes_of [0xFE, 0xFF, 0x00, 0x80]) \<noteq> []
   \<and> decodeAudioData (bytes_of [0xFE, 0xFF, 0x00, 0x80]) sample_context 24000 1 =
        Inr \<lparr> numberOfChannels = 1, frames = 2, bufferRate = 24000,
              channels = [[Num (- 2 / 32768), Num (- 1)]] \<rparr>
   \<and> buffer (bytes_of []) = []
   \<and> decodeAudioData (bytes_of []) sample_context 24000 1 = Inl NotSupportedError
   \<and> atob (sample_platform always_throws always_throws) ''AAA='' = Inr [CHR 0x00, CHR 0x00]
   \<and> base64ToUint8Array (atob (sample_platform always_throws always_throws)) ''AAA=''
        = Inr (bytes_of [0x00, 0x00])"
proof -
  have ctx: "1 \<le> maxChannels sample_context" "minRate sample_context \<le> 24000"
    "24000 \<le> maxRate sample_context"
    by (simp_all add: sample_context_def)
  have at: "atob (sample_platform always_throws always_throws) ''AAA='' = Inr [CHR 0x00, CHR 0x00]"
    by (simp add: sample_platform_def)
  note a = decodeAudioData_mono [OF ctx, of "bytes_of [0xFE, 0xFF, 0x00, 0x80]"
      "atob (sample_platform always_throws always_throws)" "''AAA=''"]
  note b = decodeAudioData_mono [OF ctx, of "bytes_of []"
      "atob (sample_platform always_throws always_throws)" "''AAA=''"]
  have 1: "decodeAudioData (bytes_of [0xFE, 0xFF, 0x00, 0x80]) sample_context 24000 1 =
        Inr \<lparr> numberOfChannels = 1, frames = 2, bufferRate = 24000,
              channels = [[Num (- 2 / 32768), Num (- 1)]] \<rparr>"
    using a [THEN conjunct1] by (simp add: bytes_of_def word_cat_eq)
  have 2: "decodeAudioData (bytes_of []) sample_context 24000 1 = Inl NotSupportedError"
    using b [THEN conjunct2, THEN conjunct1] by (simp add: bytes_of_def)
  have 3: "base64ToUint8Array (atob (sample_platform always_throws always_throws)) ''AAA=''
        = Inr (bytes_of [0x00, 0x00])"
    using a at by simp
  show ?thesis
    using ctx at 1 2 3 by (simp add: bytes_of_def)
qed

subsection \<open>Alignment\<close>

text \<open>
  C5, as stated, at two channels. Six bytes: the length is not a multiple of 4, and the
  call does not fail; it returns one frame per channel and drops the third sample. A view
  of three bytes over a buffer of four: the length of the array is odd, and the call does
  not fail either, since it reads the whole buffer.
\<close>

theorem decodeAudioData_misaligned_counterexample:
  "decodeAudioData (bytes_of [0x01, 0x00, 0x02, 0x00, 0x03, 0x00]) sample_context 24000 2 =
     Inr \<lparr> numberOfChannels = 2, frames = 1, bufferRate = 24000,
           channels = [[Num (1 / 32768)], [Num (2 / 32768)]] \<rparr>
   \<and> decodeAudioData \<lparr> buffer = [0x01, 0x00, 0x02, 0x00], byteOffset = 0, byteLength = 3 \<rparr>
         sample_context 24000 2 =
       Inr \<lparr> numberOfChannels = 2, frames = 1, bufferRate = 24000,
             channels = [[Num (1 / 32768)], [Num (2 / 32768)]] \<rparr>"
proof -
  have two: "replicate 2 x = [x, x]" for x :: "f32 list"
    by (simp add: numeral_2_eq_2)
  show ?thesis
    by (simp add: decodeAudioData_def new_Int16Array_def createBuffer_def sample_context_def
        bytes_of_def word_cat_eq channels_loop.simps channel_loop.simps sample_at_def two)
qed

text \<open>
  C5, amended: \<open>decodeAudioData\<close> fails, with the RangeError of the Int16Array
  constructor, for every Uint8Array whose backing buffer \<open>data.buffer\<close> has odd length,
  whatever the number of channels; so it fails on the array that \<open>base64ToUint8Array\<close>
  returns whenever the number of decoded bytes is odd.
\<close>

theorem decodeAudioData_odd_length:
  "(odd (length (buffer data)) \<longrightarrow> decodeAudioData data ctx sr nc = Inl RangeError)
   \<and> (\<forall>str. decode payload = Inr str \<and> odd (length str) \<longrightarrow>
         (\<exists>bytes. base64ToUint8Array decode payload = Inr bytes
            \<and> decodeAudioData bytes ctx sr nc = Inl RangeError))"
  by (simp add: decodeAudioData_def new_Int16Array_def odd_iff_mod_2_eq_one
      base64ToUint8Array_eq bytes_of_def)

text \<open>
  The amended C5 at three bytes and two channels, and at the payload \<open>QQ==\<close>, which
  decodes to one byte.
\<close>

theorem decodeAudioData_odd_length_witness:
  "odd (length (buffer (bytes_of [0x01, 0x00, 0x02])))
   \<and> decodeAudioData (bytes_of [0x01, 0x00, 0x02]) sample_context 24000 2 = Inl RangeError
   \<and> decode_one_byte ''QQ=='' = Inr ''A'' \<and> odd (length ''A'')
   \<and> base64ToUint8Array decode_one_byte ''QQ=='' = Inr (bytes_of [0x41])
   \<and> decodeAudioData (bytes_of [0x41]) sample_context 24000 2 = Inl RangeError"
proof -
  note t = decodeAudioData_odd_length
    [of "bytes_of [0x01, 0x00, 0x02]" sample_context 24000 2 decode_one_byte "''QQ==''"]
  have d: "decode_one_byte ''QQ=='' = Inr ''A''"
    by (simp add: decode_one_byte_def)
  have 1: "decodeAudioData (bytes_of [0x01, 0x00, 0x02]) sample_context 24000 2 = Inl RangeError"
    using t [THEN conjunct1] by (simp add: bytes_of_def)
  from t [THEN conjunct2, rule_format, of "''A''"] d
  obtain bytes where b: "base64ToUint8Array decode_one_byte ''QQ=='' = Inr bytes"
    "decodeAudioData bytes sample_context 24000 2 = Inl RangeError"
    by auto
  have "base64ToUint8Array decode_one_byte ''QQ=='' = Inr (bytes_of [0x41])"
    using d by (simp add: base64ToUint8Array_eq)
  with b have 2: "base64ToUint8Array decode_one_byte ''QQ=='' = Inr (bytes_of [0x41])"
    "decodeAudioData (bytes_of [0x41]) sample_context 24000 2 = Inl RangeError"
    by simp_all
  show ?thesis
    using d 1 2 by (simp add: bytes_of_def)
qed

section \<open>Properties of the playback session\<close>

subsection \<open>stopAudio\<close>

text \<open>
  The two releases never throw: the exception of \<open>source.stop()\<close> is caught, and the
  effects record its outcome.
\<close>

lemma release_source_Inr:
  "release_source s =
     Inr (s\<lparr> audioSourceRef := None,
            effects := effects s @
              (case audioSourceRef s of
                 None \<Rightarrow> []
               | Some src \<Rightarrow>
                   [SourceStop (case source_stop src of Inl e \<Rightarrow> Some e | Inr n \<Rightarrow> None),
                    SourceDisconnect]) \<rparr>)"
  by (simp add: release_source_def Let_def split: option.splits sum.splits)

lemma release_context_Inr:
  "release_context s =
     Inr (s\<lparr> audioContextRef := None,
            effects := effects s @
              (case audioContextRef s of None \<Rightarrow> [] | Some ctx \<Rightarrow> [ContextClose]) \<rparr>)"
  by (simp add: release_context_def split: option.splits)

lemma stopAudio_Inr:
  "stopAudio s =
     Inr (s\<lparr> audioSourceRef := None, audioContextRef := None,
            isPlaying := False, isAudioLoading := False,
            effects := effects s @
              (case audioSourceRef s of
                 None \<Rightarrow> []
               | Some src \<Rightarrow>
                   [SourceStop (case source_stop src of Inl e \<Rightarrow> Some e | Inr n \<Rightarrow> None),
                    SourceDisconnect])
              @ (case audioContextRef s of None \<Rightarrow> [] | Some ctx \<Rightarrow> [ContextClose])
              @ [SetIsPlaying False, SetIsAudioLoading False] \<rparr>)"
  by (simp add: stopAudio_def release_source_Inr release_context_Inr)

text \<open>
  C8: \<open>stopAudio\<close> returns from every state, also when the source handle throws on
  \<open>stop()\<close>. It stops and disconnects the source, closes the context, and only then
  clears the two flags; both refs are empty afterwards. Called again on the state it
  returns, it returns again, touches no handle and changes nothing but the record of the
  two flag updates. With no session at all it returns too, and on a source that has
  already stopped the InvalidStateError is swallowed.
\<close>

theorem stopAudio_total_idempotent:
  "\<exists>s'. stopAudio s = Inr s'
     \<and> audioSourceRef s' = None \<and> audioContextRef s' = None
     \<and> \<not> isPlaying s' \<and> \<not> isAudioLoading s'
     \<and> effects s' = effects s
          @ (case audioSourceRef s of
               None \<Rightarrow> []
             | Some src \<Rightarrow>
                 [SourceStop (case source_stop src of Inl e \<Rightarrow> Some e | Inr n \<Rightarrow> None),
                  SourceDisconnect])
          @ (case audioContextRef s of None \<Rightarrow> [] | Some ctx \<Rightarrow> [ContextClose])
          @ [SetIsPlaying False, SetIsAudioLoading False]
     \<and> stopAudio s' =
           Inr (s'\<lparr> effects := effects s' @ [SetIsPlaying False, SetIsAudioLoading False] \<rparr>)
     \<and> stopAudio (initial_state today long) =
           Inr ((initial_state today long)\<lparr> effects := [SetIsPlaying False, SetIsAudioLoading False] \<rparr>)
     \<and> stopAudio ((initial_state today long)
            \<lparr> audioSourceRef := Some \<lparr> playbackState = Finished, connected = True,
                                       nodeBuffer = None \<rparr> \<rparr>) =
           Inr ((initial_state today long)
                  \<lparr> effects := [SourceStop (Some InvalidStateError), SourceDisconnect,
                                 SetIsPlaying False, SetIsAudioLoading False] \<rparr>)"
  by (simp add: stopAudio_Inr initial_state_def source_stop_def)

subsection \<open>handlePlayAudio\<close>

text \<open>
  C10: with no content loaded, \<open>handlePlayAudio\<close> returns the state as it was: no flag
  is set, no request is made to the generator, no context is opened.
\<close>

theorem handlePlayAudio_no_content:
  "content s = None \<Longrightarrow> handlePlayAudio env s = Inr s"
  by (simp add: handlePlayAudio_def)

text \<open>C10 in the state of a freshly mounted component.\<close>

theorem handlePlayAudio_no_content_witness:
  "content (initial_state ''01/03/2024'' ''sexta-feira, 1 de mar. de 2024'') = None
   \<and> handlePlayAudio (sample_platform always_throws always_throws)
        (initial_state ''01/03/2024'' ''sexta-feira, 1 de mar. de 2024'')
       = Inr (initial_state ''01/03/2024'' ''sexta-feira, 1 de mar. de 2024'')"
  using handlePlayAudio_no_content
    [of "initial_state ''01/03/2024'' ''sexta-feira, 1 de mar. de 2024''"
        "sample_platform always_throws always_throws"]
  by (simp add: initial_state_def)

text \<open>
  When the request to the audio generator throws, the notice is shown and the session is
  neither loading nor playing.
\<close>

lemma handlePlayAudio_generator_throws:
  assumes "content s = Some c" and "\<not> isPlaying s"
    and "generateSpeech env (length (audioCalls s)) c = Inl e"
  shows "handlePlayAudio env s =
           Inr (s\<lparr> isAudioLoading := False, audioCalls := audioCalls s @ [c],
                  effects := effects s @ [SetIsAudioLoading True,
                    ConsoleError ''Error generating audio:'', Alert audio_alert,
                    SetIsAudioLoading False] \<rparr>)"
  using assms by (simp add: handlePlayAudio_def play_try_def Let_def)

text \<open>
  When the generator answers without audio data, the run ends between the two updates of
  the loading flag: nothing is played, and nothing is shown.
\<close>

lemma handlePlayAudio_no_data:
  assumes "content s = Some c" and "\<not> isPlaying s"
    and "generateSpeech env (length (audioCalls s)) c = Inr b" and "b = None \<or> b = Some []"
  shows "handlePlayAudio env s =
           Inr (s\<lparr> isAudioLoading := False, audioCalls := audioCalls s @ [c],
                  effects := effects s @ [SetIsAudioLoading True, SetIsAudioLoading False] \<rparr>)"
  using assms by (auto simp add: handlePlayAudio_def play_try_def Let_def)

text \<open>
  C7 asks for a notice whenever the generator returns no usable audio data. Here the
  generator answers with no data and content is loaded: the effects hold the two updates
  of the loading flag and no \<open>Alert\<close>.
\<close>

theorem handlePlayAudio_no_audio_data_silent:
  "handlePlayAudio (sample_platform always_throws (always_returns None))
     ((initial_state ''01/03/2024'' ''sexta-feira, 1 de mar. de 2024'')
        \<lparr> view := Reading, content := Some sample_content \<rparr>) =
   Inr ((initial_state ''01/03/2024'' ''sexta-feira, 1 de mar. de 2024'')
        \<lparr> view := Reading, content := Some sample_content, audioCalls := [sample_content],
          effects := [SetIsAudioLoading True, SetIsAudioLoading False] \<rparr>)"
  by (simp add: handlePlayAudio_def play_try_def Let_def initial_state_def sample_platform_def
      always_returns_def)

section \<open>Properties of the daily content\<close>

subsection \<open>When the request settles\<close>

text \<open>
  When the request throws, or its text does not parse, the fallback is shown. When the
  request returns no text, the content is left as it was.
\<close>

lemma generate_settle_throws:
  assumes "generateText env (reqIndex p) (reqPrompt p) = Inl e"
  shows "generate_settle env p s =
           Inr (s\<lparr> effects := effects s @ [ConsoleError ''Erro ao gerar devocional''],
                  content := Some fallbackContent, isLoading := False \<rparr>)"
  using assms by (simp add: generate_settle_def remote_try_def)

lemma generate_settle_unparseable:
  assumes "generateText env (reqIndex p) (reqPrompt p) = Inr (Some txt)"
    and "txt \<noteq> []" and "JSON_parse env txt = Inl e"
  shows "generate_settle env p s =
           Inr (s\<lparr> effects := effects s @ [ConsoleError ''Erro ao gerar devocional''],
                  content := Some fallbackContent, isLoading := False \<rparr>)"
  using assms by (simp add: generate_settle_def remote_try_def)

lemma generate_settle_no_text:
  assumes "generateText env (reqIndex p) (reqPrompt p) = Inr txt"
    and "txt = None \<or> txt = Some []"
  shows "generate_settle env p s = Inr (s\<lparr> isLoading := False \<rparr>)"
  using assms by (auto simp add: generate_settle_def remote_try_def)

text \<open>
  C6 asks for the fallback whenever the generator returns nothing usable. Here the
  generator answers without text on a freshly mounted component: the call ends on the
  reading view with no content at all, not with the fallback.
\<close>

theorem generateDevotional_empty_text_no_content:
  "generateDevotional (sample_platform (always_returns None) always_throws) None
     (initial_state ''01/03/2024'' ''1 de mar. de 2024'') =
   Inr ((initial_state ''01/03/2024'' ''1 de mar. de 2024'')
        \<lparr> view := Reading, content := None, currentTopic := ''Devocional do Dia'',
          textCalls := [DailyPrompt ''1 de mar. de 2024''],
          effects := [SetIsPlaying False, SetIsAudioLoading False] \<rparr>)"
  by (simp add: generateDevotional_def generateDevotional_start_def stopAudio_Inr truthy_def
      Let_def generate_begin_def generate_settle_def remote_try_def initial_state_def
      sample_platform_def always_returns_def cacheKey_def or_else_def)

subsection \<open>Topics\<close>

text \<open>
  For a topic the settled request decides the content and nothing is stored; the call
  reaches the request whatever the store holds.
\<close>

lemma generate_settle_topic:
  assumes "truthy (reqTopic p)"
  shows "\<exists>s'. generate_settle env p s = Inr s'
           \<and> textCalls s' = textCalls s \<and> localStorage s' = localStorage s
           \<and> todayDate s' = todayDate s \<and> dateStr s' = dateStr s
           \<and> content s' =
               (case generateText env (reqIndex p) (reqPrompt p) of
                  Inl e \<Rightarrow> Some fallbackContent
                | Inr None \<Rightarrow> content s
                | Inr (Some txt) \<Rightarrow>
                    if txt \<noteq> []
                    then (case JSON_parse env txt of
                            Inl e \<Rightarrow> Some fallbackContent
                          | Inr d \<Rightarrow> Some d)
                    else content s)"
  using assms
  by (simp add: generate_settle_def remote_try_def Let_def split: sum.splits option.splits)

lemma start_topic:
  assumes "t \<noteq> []"
  shows "\<exists>s1. generateDevotional_start env (Some t) s =
                Inr (s1, Some \<lparr> reqTopic = Some t, reqIndex = length (textCalls s),
                                 reqPrompt = TopicPrompt t \<rparr>)
           \<and> textCalls s1 = textCalls s @ [TopicPrompt t]
           \<and> localStorage s1 = localStorage s \<and> content s1 = content s
           \<and> todayDate s1 = todayDate s \<and> dateStr s1 = dateStr s"
  using assms
  by (simp add: generateDevotional_start_def stopAudio_Inr truthy_def generate_begin_def Let_def)

text \<open>
  C9, as stated, at the empty string, which is a topic key of type \<open>string\<close>: it is
  falsy, so the call takes the daily path. On an empty store the generated result is
  stored under the key of the day; on a stored entry no request is made at all.
\<close>

theorem empty_topic_counterexample:
  "map_sum id stored_today
     (generateDevotional (sample_platform (always_returns (Some ''{title: X}'')) always_throws)
        (Some []) (initial_state ''01/03/2024'' ''1 de mar. de 2024'')) = Inr (Some ''{title: X}'')
   \<and> map_sum id textCalls
     (generateDevotional (sample_platform (always_returns (Some ''{title: X}'')) always_throws)
        (Some [])
        ((initial_state ''01/03/2024'' ''1 de mar. de 2024'')
           \<lparr> localStorage := [cacheKey ''01/03/2024'' \<mapsto> ''{title: X}''] \<rparr>)) = Inr []"
  by (simp add: generateDevotional_def generateDevotional_start_def stopAudio_Inr truthy_def
      Let_def generate_begin_def generate_settle_def remote_try_def initial_state_def
      sample_platform_def always_returns_def stored_today_def or_else_def)

text \<open>
  C9, amended: for every non-empty topic, \<open>generateDevotional\<close> reaches the \<open>await\<close> with
  a request to the generator pending, whatever the store holds; once it settles, the
  content is what the answer of the generator to that request decides (the parsed
  record, the fallback when it throws or does not parse, the old content when it has no
  text), and the store is as it was. A second identical call right after the first makes
  a second request, whose answer decides the content again, and still stores nothing.
\<close>

theorem topic_always_generates:
  assumes "t \<noteq> []"
  shows "(\<exists>s1. generateDevotional_start env (Some t) s =
                Inr (s1, Some \<lparr> reqTopic = Some t, reqIndex = length (textCalls s),
                                 reqPrompt = TopicPrompt t \<rparr>)
            \<and> textCalls s1 = textCalls s @ [TopicPrompt t]
            \<and> localStorage s1 = localStorage s)
         \<and> (\<exists>s'. generateDevotional env (Some t) s = Inr s'
            \<and> textCalls s' = textCalls s @ [TopicPrompt t]
            \<and> localStorage s' = localStorage s
            \<and> content s' =
                (case generateText env (length (textCalls s)) (TopicPrompt t) of
                   Inl e \<Rightarrow> Some fallbackContent
                 | Inr None \<Rightarrow> content s
                 | Inr (Some txt) \<Rightarrow>
                     if txt \<noteq> []
                     then (case JSON_parse env txt of
                             Inl e \<Rightarrow> Some fallbackContent
                           | Inr d \<Rightarrow> Some d)
                     else content s)
            \<and> (\<exists>s''. generateDevotional env (Some t) s' = Inr s''
                 \<and> textCalls s'' = textCalls s @ [TopicPrompt t, TopicPrompt t]
                 \<and> localStorage s'' = localStorage s
                 \<and> content s'' =
                     (case generateText env (Suc (length (textCalls s))) (TopicPrompt t) of
                        Inl e \<Rightarrow> Some fallbackContent
                      | Inr None \<Rightarrow> content s'
                      | Inr (Some txt) \<Rightarrow>
                          if txt \<noteq> []
                          then (case JSON_parse env txt of
                                  Inl e \<Rightarrow> Some fallbackContent
                                | Inr d \<Rightarrow> Some d)
                          else content s')))"
proof -
  have step: "\<exists>s'. generateDevotional env (Some t) s = Inr s'
                \<and> textCalls s' = textCalls s @ [TopicPrompt t]
                \<and> localStorage s' = localStorage s
                \<and> content s' =
                    (case generateText env (length (textCalls s)) (TopicPrompt t) of
                       Inl e \<Rightarrow> Some fallbackContent
                     | Inr None \<Rightarrow> content s
                     | Inr (Some txt) \<Rightarrow>
                         if txt \<noteq> []
                         then (case JSON_parse env txt of
                                 Inl e \<Rightarrow> Some fallbackContent
                               | Inr d \<Rightarrow> Some d)
                         else content s)" for s
  proof -
    let ?p = "\<lparr> reqTopic = Some t, reqIndex = length (textCalls s), reqPrompt = TopicPrompt t \<rparr>"
    from start_topic [OF assms, of env s] obtain s1 where
      1: "generateDevotional_start env (Some t) s = Inr (s1, Some ?p)"
        "textCalls s1 = textCalls s @ [TopicPrompt t]" "localStorage s1 = localStorage s"
        "content s1 = content s"
      by blast
    have tr: "truthy (reqTopic ?p)" using assms by (simp add: truthy_def)
    from generate_settle_topic [OF tr, of env s1] obtain s' where
      2: "generate_settle env ?p s1 = Inr s'" "textCalls s' = textCalls s1"
        "localStorage s' = localStorage s1"
        "content s' =
               (case generateText env (reqIndex ?p) (reqPrompt ?p) of
                  Inl e \<Rightarrow> Some fallbackContent
                | Inr None \<Rightarrow> content s1
                | Inr (Some txt) \<Rightarrow>
                    if txt \<noteq> []
                    then (case JSON_parse env txt of
                            Inl e \<Rightarrow> Some fallbackContent
                          | Inr d \<Rightarrow> Some d)
                    else content s1)"
      by blast
    have "generateDevotional env (Some t) s = Inr s'"
      using 1(1) 2(1) by (simp add: generateDevotional_def)
    with 1 2 show ?thesis by (simp split: sum.splits option.splits)
  qed
  from step [of s] obtain s' where 1: "generateDevotional env (Some t) s = Inr s'"
    "textCalls s' = textCalls s @ [TopicPrompt t]" "localStorage s' = localStorage s"
    "content s' =
        (case generateText env (length (textCalls s)) (TopicPrompt t) of
           Inl e \<Rightarrow> Some fallbackContent
         | Inr None \<Rightarrow> content s
         | Inr (Some txt) \<Rightarrow>
             if txt \<noteq> []
             then (case JSON_parse env txt of
                     Inl e \<Rightarrow> Some fallbackContent
                   | Inr d \<Rightarrow> Some d)
             else content s)"
    by blast
  from step [of s'] obtain s'' where 2: "generateDevotional env (Some t) s' = Inr s''"
    "textCalls s'' = textCalls s' @ [TopicPrompt t]" "localStorage s'' = localStorage s'"
    "content s'' =
        (case generateText env (length (textCalls s')) (TopicPrompt t) of
           Inl e \<Rightarrow> Some fallbackContent
         | Inr None \<Rightarrow> content s'
         | Inr (Some txt) \<Rightarrow>
             if txt \<noteq> []
             then (case JSON_parse env txt of
                     Inl e \<Rightarrow> Some fallbackContent
                   | Inr d \<Rightarrow> Some d)
             else content s')"
    by blast
  have idx: "length (textCalls s') = Suc (length (textCalls s))"
    using 1(2) by simp
  have A: "\<exists>s1. generateDevotional_start env (Some t) s =
                Inr (s1, Some \<lparr> reqTopic = Some t, reqIndex = length (textCalls s),
                                 reqPrompt = TopicPrompt t \<rparr>)
            \<and> textCalls s1 = textCalls s @ [TopicPrompt t]
            \<and> localStorage s1 = localStorage s"
    using start_topic [OF assms, of env s] by blast
  have C: "\<exists>s''. generateDevotional env (Some t) s' = Inr s''
                 \<and> textCalls s'' = textCalls s @ [TopicPrompt t, TopicPrompt t]
                 \<and> localStorage s'' = localStorage s
                 \<and> content s'' =
                     (case generateText env (Suc (length (textCalls s))) (TopicPrompt t) of
                        Inl e \<Rightarrow> Some fallbackContent
                      | Inr None \<Rightarrow> content s'
                      | Inr (Some txt) \<Rightarrow>
                          if txt \<noteq> []
                          then (case JSON_parse env txt of
                                  Inl e \<Rightarrow> Some fallbackContent
                                | Inr d \<Rightarrow> Some d)
                          else content s')"
    using 1(2,3) 2 idx by simp
  from A 1 C show ?thesis by blast
qed

text \<open>
  The amended C9 for the topic \<open>Medo\<close> on a freshly mounted component, with a generator
  that answers the sample document.
\<close>

theorem topic_always_generates_witness:
  "''Medo'' \<noteq> []
   \<and> (\<exists>s'. generateDevotional (sample_platform (always_returns (Some ''{title: X}'')) always_throws)
              (Some ''Medo'') (initial_state ''01/03/2024'' ''1 de mar. de 2024'') = Inr s'
         \<and> textCalls s' = [TopicPrompt ''Medo'']
         \<and> localStorage s' = Map.empty
         \<and> content s' = Some sample_content)"
proof -
  let ?env = "sample_platform (always_returns (Some ''{title: X}'')) always_throws"
  let ?s0 = "initial_state ''01/03/2024'' ''1 de mar. de 2024''"
  have ne: "''Medo'' \<noteq> []" by simp
  have g: "generateText ?env 0 (TopicPrompt ''Medo'') = Inr (Some ''{title: X}'')"
    "JSON_parse ?env ''{title: X}'' = Inr sample_content"
    by (simp_all add: sample_platform_def always_returns_def)
  have f: "textCalls ?s0 = []" "localStorage ?s0 = Map.empty"
    by (simp_all add: initial_state_def)
  from topic_always_generates [OF ne, of ?env ?s0, THEN conjunct2]
  obtain s' where "generateDevotional ?env (Some ''Medo'') ?s0 = Inr s'"
    "textCalls s' = textCalls ?s0 @ [TopicPrompt ''Medo'']"
    "localStorage s' = localStorage ?s0"
    "content s' =
        (case generateText ?env (length (textCalls ?s0)) (TopicPrompt ''Medo'') of
           Inl e \<Rightarrow> Some fallbackContent
         | Inr None \<Rightarrow> content ?s0
         | Inr (Some txt) \<Rightarrow>
             if txt \<noteq> []
             then (case JSON_parse ?env txt of
                     Inl e \<Rightarrow> Some fallbackContent
                   | Inr d \<Rightarrow> Some d)
             else content ?s0)"
    by blast
  then have "generateDevotional ?env (Some ''Medo'') ?s0 = Inr s'
      \<and> textCalls s' = [TopicPrompt ''Medo''] \<and> localStorage s' = Map.empty
      \<and> content s' = Some sample_content"
    by (simp add: g f)
  then show ?thesis using ne by blast
qed

subsection \<open>The devotional of the day\<close>







text \<open>
  Calls that are each settled before the next one is made are the schedule that
  alternates a call and the settling of its request.
\<close>

lemma run_sequential:
  "run env (concat (replicate n [Invoke None, Settle 0])) (s, []) =
     (case daily_calls env n s of Inl e \<Rightarrow> Inl e | Inr s' \<Rightarrow> Inr (s', []))"
proof (induction n arbitrary: s)
  case 0
  then show ?case by simp
next
  case (Suc n)
  show ?case
  proof (cases "generateDevotional_start env None s")
    case (Inl e)
    then show ?thesis by (simp add: generateDevotional_def)
  next
    case (Inr r)
    obtain s1 po where r: "r = (s1, po)" by (cases r)
    show ?thesis
    proof (cases po)
      case None
      with Inr r show ?thesis by (simp add: generateDevotional_def Suc.IH)
    next
      case (Some p)
      with Inr r show ?thesis
        by (cases "generate_settle env p s1") (simp_all add: generateDevotional_def Suc.IH)
    qed
  qed
qed




section \<open>Properties of the service worker\<close>

subsection \<open>Fetch\<close>

lemma map_of_cache_put:
  assumes "put_accepts req resp" and "map_of cs name = Some c"
  shows "\<exists>cs'. cache_put name req resp cs = Inr cs'
           \<and> map_of cs' name = Some (c(req \<mapsto> resp))"
proof -
  have "map_of (map (\<lambda>(n, c). if n = name then (n, c(req \<mapsto> resp)) else (n, c)) cs) name
        = Some (c(req \<mapsto> resp))"
    using assms(2)
  proof (induction cs)
    case Nil
    then show ?case by simp
  next
    case (Cons p cs)
    obtain n c' where p: "p = (n, c')" by (cases p)
    show ?case
    proof (cases "n = name")
      case True
      with Cons.prems p show ?thesis by (auto simp add: fun_upd_def)
    next
      case False
      with Cons p show ?thesis by simp
    qed
  qed
  with assms(1) show ?thesis by (simp add: cache_put_def)
qed

lemma cache_put_rejects:
  "\<not> put_accepts req resp \<Longrightarrow> cache_put name req resp cs = Inl TypeError"
  by (simp add: cache_put_def)

lemma caches_open_lookup:
  "map_of (snd (caches_open name cs)) name = Some (fst (caches_open name cs))"
  by (simp add: caches_open_def map_add_def split: option.splits)

lemma caches_open_cache:
  "fst (caches_open name cs) = (case map_of cs name of Some c \<Rightarrow> c | None \<Rightarrow> Map.empty)"
  by (simp add: caches_open_def split: option.splits)

text \<open>
  C2, as stated, for a request to \<open>esm.sh\<close>: the network answers, and the entry is not
  overwritten. With a 206 response \<open>cache.put\<close> rejects and the old entry stays; with a
  POST request it rejects too and nothing is stored.
\<close>

theorem stale_while_revalidate_counterexample:
  "swr_origin (origin esm_request)
   \<and> network_up (http_response 206 ''part'') esm_request = Inr (http_response 206 ''part'')
   \<and> map_of (caches (snd (on_fetch (network_up (http_response 206 ''part'')) esm_request
        \<lparr> caches = [(CACHE_NAME, [esm_request \<mapsto> http_response 200 ''old''])],
          fetched = [] \<rparr>))) CACHE_NAME
       = Some [esm_request \<mapsto> http_response 200 ''old'']
   \<and> swr_origin (origin (esm_request\<lparr> requestMethod := ''POST'' \<rparr>))
   \<and> map_of (caches (snd (on_fetch (network_up (http_response 200 ''new''))
        (esm_request\<lparr> requestMethod := ''POST'' \<rparr>)
        \<lparr> caches = [(CACHE_NAME, Map.empty)], fetched = [] \<rparr>))) CACHE_NAME
       = Some Map.empty"
  by (simp add: swr_origin_def esm_request_def network_up_def http_response_def on_fetch_def
      caches_open_def cache_match_def cache_put_def put_accepts_def Let_def)

text \<open>
  C2, amended: for a request whose origin contains an allow-listed host, the answer is
  the cached response when the current cache matches the request and the outcome of the
  network request otherwise; one network request is issued in both cases; when it
  succeeds and \<open>cache.put\<close> accepts the pair (a GET request, a response that is not a
  206 and has no \<open>*\<close> in Vary), its response replaces the entry of the request in the
  current cache; when \<open>put\<close> rejects or the network request fails, the current cache is
  what it was. The cache consulted is the stored one under \<open>CACHE_NAME\<close>, or a new empty
  one.
\<close>

theorem stale_while_revalidate:
  assumes "swr_origin (origin req)"
  shows "fst (on_fetch net req st) =
           (case cache_match (fst (caches_open CACHE_NAME (caches st))) req of
              Some r \<Rightarrow> Inr r
            | None \<Rightarrow> net req)
         \<and> fetched (snd (on_fetch net req st)) = fetched st @ [req]
         \<and> map_of (caches (snd (on_fetch net req st))) CACHE_NAME =
             Some (case net req of
                     Inr networkResponse \<Rightarrow>
                       if put_accepts req networkResponse
                       then (fst (caches_open CACHE_NAME (caches st)))(req \<mapsto> networkResponse)
                       else fst (caches_open CACHE_NAME (caches st))
                   | Inl e \<Rightarrow> fst (caches_open CACHE_NAME (caches st)))
         \<and> fst (caches_open CACHE_NAME (caches st)) =
             (case map_of (caches st) CACHE_NAME of Some c \<Rightarrow> c | None \<Rightarrow> Map.empty)"
proof -
  obtain cache cs1 where op: "caches_open CACHE_NAME (caches st) = (cache, cs1)"
    by (cases "caches_open CACHE_NAME (caches st)")
  have look: "map_of cs1 CACHE_NAME = Some cache"
    using caches_open_lookup [of CACHE_NAME "caches st"] op by simp
  have put: "map_of (case cache_put CACHE_NAME req nr cs1 of Inr cs' \<Rightarrow> cs' | Inl e \<Rightarrow> cs1)
               CACHE_NAME
             = Some (if put_accepts req nr then cache(req \<mapsto> nr) else cache)" for nr
  proof (cases "put_accepts req nr")
    case True
    from map_of_cache_put [OF True look] obtain cs' where
      "cache_put CACHE_NAME req nr cs1 = Inr cs'" "map_of cs' CACHE_NAME = Some (cache(req \<mapsto> nr))"
      by blast
    with True show ?thesis by simp
  next
    case False
    with look show ?thesis by (simp add: cache_put_rejects)
  qed
  show ?thesis
    using assms op look put caches_open_cache [of CACHE_NAME "caches st"]
    by (simp add: on_fetch_def Let_def split: option.splits sum.splits)
qed

text \<open>
  The amended C2 for a GET request to \<open>esm.sh\<close>: a cached entry with the network up and
  down, and no cached entry with the network up and down.
\<close>

theorem stale_while_revalidate_witness:
  "swr_origin (origin esm_request)
   \<and> fst (on_fetch (network_up (http_response 200 ''new'')) esm_request
            \<lparr> caches = [(CACHE_NAME, [esm_request \<mapsto> http_response 200 ''old''])],
              fetched = [] \<rparr>) = Inr (http_response 200 ''old'')
   \<and> fetched (snd (on_fetch (network_up (http_response 200 ''new'')) esm_request
            \<lparr> caches = [(CACHE_NAME, [esm_request \<mapsto> http_response 200 ''old''])],
              fetched = [] \<rparr>)) = [esm_request]
   \<and> map_of (caches (snd (on_fetch (network_up (http_response 200 ''new'')) esm_request
            \<lparr> caches = [(CACHE_NAME, [esm_request \<mapsto> http_response 200 ''old''])],
              fetched = [] \<rparr>))) CACHE_NAME
        = Some [esm_request \<mapsto> http_response 200 ''new'']
   \<and> fst (on_fetch network_down esm_request
            \<lparr> caches = [(CACHE_NAME, [esm_request \<mapsto> http_response 200 ''old''])],
              fetched = [] \<rparr>) = Inr (http_response 200 ''old'')
   \<and> map_of (caches (snd (on_fetch network_down esm_request
            \<lparr> caches = [(CACHE_NAME, [esm_request \<mapsto> http_response 200 ''old''])],
              fetched = [] \<rparr>))) CACHE_NAME
        = Some [esm_request \<mapsto> http_response 200 ''old'']
   \<and> fst (on_fetch (network_up (http_response 200 ''new'')) esm_request
            \<lparr> caches = [], fetched = [] \<rparr>) = Inr (http_response 200 ''new'')
   \<and> fst (on_fetch network_down esm_request \<lparr> caches = [], fetched = [] \<rparr>) = Inl NetworkError"
proof -
  have org: "swr_origin (origin esm_request)"
    by (simp add: swr_origin_def esm_request_def)
  let ?st = "\<lparr> caches = [(CACHE_NAME, [esm_request \<mapsto> http_response 200 ''old''])],
              fetched = [] \<rparr>"
  let ?empty = "\<lparr> caches = [], fetched = [] \<rparr> :: sw_state"
  have op: "fst (caches_open CACHE_NAME (caches ?st)) = [esm_request \<mapsto> http_response 200 ''old'']"
    "fst (caches_open CACHE_NAME (caches ?empty)) = Map.empty"
    by (simp_all add: caches_open_def)
  have get: "requestMethod esm_request = ''GET''"
    by (simp add: esm_request_def)
  have acc: "put_accepts esm_request (http_response 200 ''new'')"
    by (simp add: put_accepts_def esm_request_def http_response_def)
  show ?thesis
    using org
      stale_while_revalidate [OF org, of "network_up (http_response 200 ''new'')" ?st]
      stale_while_revalidate [OF org, of network_down ?st]
      stale_while_revalidate [OF org, of "network_up (http_response 200 ''new'')" ?empty]
      stale_while_revalidate [OF org, of network_down ?empty]
    by (simp add: op network_up_def network_down_def cache_match_def get acc)
qed

subsection \<open>Activate\<close>

lemma activate_loop_filter:
  "activate_loop [keep] names cs = filter (\<lambda>(n, c). n = keep \<or> n \<notin> set names) cs"
proof (induction names arbitrary: cs)
  case Nil
  then show ?case by (simp add: case_prod_unfold)
next
  case (Cons a names)
  show ?case
  proof (cases "a = keep")
    case True
    then show ?thesis by (auto simp: Cons.IH intro: filter_cong)
  next
    case False
    then show ?thesis
      by (auto simp: Cons.IH caches_delete_def intro!: filter_cong)
  qed
qed

text \<open>
  C3: activation keeps exactly the stored caches named \<open>CACHE_NAME\<close>, each as it was,
  and deletes all the others; with \<open>devocional-v7\<close> and \<open>devocional-v8\<close> stored, only
  \<open>devocional-v8\<close> remains.
\<close>

theorem activate_keeps_current_only:
  "caches (on_activate st) = filter (\<lambda>(n, c). n = CACHE_NAME) (caches st)
   \<and> fetched (on_activate st) = fetched st
   \<and> set (caches_keys (caches (on_activate st))) = set (caches_keys (caches st)) \<inter> {CACHE_NAME}
   \<and> caches (on_activate \<lparr> caches = [(''devocional-v7'', c1), (''devocional-v8'', c2)],
                           fetched = [] \<rparr>) = [(''devocional-v8'', c2)]"
proof -
  have eq: "caches (on_activate st) = filter (\<lambda>(n, c). n = CACHE_NAME) (caches st)" for st
    unfolding on_activate_def Let_def caches_keys_def
    by (force simp: activate_loop_filter intro!: filter_cong)
  have keys: "set (caches_keys (caches (on_activate st)))
              = set (caches_keys (caches st)) \<inter> {CACHE_NAME}"
    by (force simp: eq caches_keys_def)
  have ex: "caches (on_activate \<lparr> caches = [(''devocional-v7'', c1), (''devocional-v8'', c2)],
                                   fetched = [] \<rparr>) = [(''devocional-v8'', c2)]"
    by (simp add: eq CACHE_NAME_def)
  have fr: "fetched (on_activate st) = fetched st"
    by (simp add: on_activate_def)
  show ?thesis
    using eq [of st] keys ex fr by (intro conjI)
qed

end
